theory Spec2Isabelle
  imports Complex_Main "HOL-Library.Product_Lexorder" "HOL-Library.Multiset"
begin

section \<open>Data model (db/schema: department_queues, departments, triage_sessions)\<close>

text \<open>
  The state is the content of the tables that the queue operations read and write. A table
  is a list of rows in storage order; primary keys are \<open>uuid\<close>s, modelled as natural
  numbers, timestamps likewise. Of the \<open>patients\<close> and \<open>users\<close> tables only the keys are
  kept: they are what the foreign keys of the inserts look up. The column types are those
  of the first schema of \<open>db/schema/app.ts\<close>, the one with the \<open>triage_session_id\<close> column
  that both services use.
  \<open>UPDATE ... WHERE\<close> rewrites every row that matches, and \<open>const [x] = await ...\<close> takes the
  first row of a result, or \<open>undefined\<close> when there is none.
\<close>

datatype urgency = RED | YELLOW | GREEN

datatype queue_status = WAITING | IN_PROGRESS | COMPLETED | CANCELLED | SKIPPED

type_synonym uuid = nat
type_synonym timestamp = nat

record queue_entry =
  queueId :: uuid
  departmentId :: uuid
  patientId :: uuid
  urgencyLevel :: urgency
  positionInQueue :: int
  expectedWaitTime :: int
  status :: queue_status
  calledAt :: "timestamp option"
  completedAt :: "timestamp option"
  assignedDoctorId :: "uuid option"
  createdAt :: timestamp
  updatedAt :: timestamp

record department =
  dept_id :: uuid
  dept_name :: string
  currentPatientLoad :: int
  maxCapacity :: int
  averageTreatmentTime :: int

text \<open>
  The \<open>vitals\<close> object of a triage request (JavaScript numbers, here reals), and the row of
  \<open>triage_sessions\<close> made from it. The generated key of a session row is not kept: no
  operation modelled here looks a session up.
\<close>

record vitals =
  temperature :: "real option"
  systolicBp :: "real option"
  diastolicBp :: "real option"
  heartRate :: "real option"
  respiratoryRate :: "real option"
  oxygenSaturation :: "real option"
  bloodGlucose :: "real option"
  painScale :: real
  weight :: "real option"
  height :: "real option"

record triage_session =
  ts_patientId :: uuid
  ts_nurseId :: uuid
  ts_vitals :: vitals
  ts_bmi :: "real option"
  ts_symptoms :: "string \<Rightarrow> bool"
  ts_chiefComplaint :: "string option"
  triageScore :: int
  ts_urgencyLevel :: urgency
  recommendedDept :: string
  estimatedWaitMinutes :: int

record db =
  departmentQueues :: "queue_entry list"
  departments :: "department list"
  triageSessions :: "triage_session list"
  patientKeys :: "uuid list"
  userKeys :: "uuid list"

text \<open>\<open>new AppError(message, statusCode)\<close>.\<close>

datatype app_error = AppError string nat

text \<open>
  \<open>SELECT ... ORDER BY\<close>: the rows come back sorted by the key of the query. The order of
  rows with equal keys is left to the database and can change from one query to the next
  (an \<open>UPDATE\<close> moves a row in storage); it is the parameter \<open>tie\<close>, a ranking of the rows
  that decides between equal keys. Every order the database may return for distinct rows
  is the result for some \<open>tie\<close> (\<open>orderBy_any_order\<close> below).
\<close>

definition orderBy :: "('a \<Rightarrow> 'k::linorder) \<Rightarrow> ('a \<Rightarrow> nat) \<Rightarrow> 'a list \<Rightarrow> 'a list" where
  "orderBy key tie rows = sort_key (\<lambda>r. (key r, tie r)) rows"

text \<open>
  The \<open>CASE WHEN urgency_level = 'RED' THEN 1 WHEN ... = 'YELLOW' THEN 2 ELSE 3 END\<close>
  expression that every ordered query of the two services uses.
\<close>

fun urgencyRank :: "urgency \<Rightarrow> nat" where
  "urgencyRank RED = 1"
| "urgencyRank YELLOW = 2"
| "urgencyRank _ = 3"

text \<open>\<open>WHERE department_id = d AND status = 'WAITING'\<close>.\<close>

definition waitingIn :: "uuid \<Rightarrow> db \<Rightarrow> queue_entry list" where
  "waitingIn d s = filter (\<lambda>e. departmentId e = d \<and> status e = WAITING) (departmentQueues s)"

text \<open>\<open>ORDER BY CASE ... END, position_in_queue ASC\<close>: the pair, compared lexicographically.\<close>

definition orderKey :: "queue_entry \<Rightarrow> nat \<times> int" where
  "orderKey e = (urgencyRank (urgencyLevel e), positionInQueue e)"

section \<open>QueueService\<close>



text \<open>
  \<open>callNextPatient\<close>. The whole body is one transaction: the throw on an empty result
  happens before any write, so the state of the failing branch is the state given.
  The lookup of the patient's display fields and the broadcast are left out, and the
  doctor's key is taken to exist. \<open>called\<close> is the \<open>.set({...})\<close> of lines 134-139; the
  result is the first row that the update returns. Rows equal in urgency and position are
  taken in storage order here; no statement below depends on which of them comes first.
\<close>

definition called :: "uuid \<Rightarrow> timestamp \<Rightarrow> queue_entry \<Rightarrow> queue_entry" where
  "called doctorId now e =
     e\<lparr>status := IN_PROGRESS, calledAt := Some now, assignedDoctorId := Some doctorId, updatedAt := now\<rparr>"

definition callNextPatient ::
  "uuid \<Rightarrow> uuid \<Rightarrow> timestamp \<Rightarrow> db \<Rightarrow> (app_error + queue_entry option) \<times> db" where
  "callNextPatient d doctorId now s =
     (case sort_key orderKey (waitingIn d s) of
        [] \<Rightarrow> (Inl (AppError ''No patients in queue'' 404), s)
      | nextPatient # _ \<Rightarrow>
          (let qs = map (\<lambda>e. if queueId e = queueId nextPatient then called doctorId now e else e)
                        (departmentQueues s);
               updated = find (\<lambda>e. queueId e = queueId nextPatient) qs;
               ds = map (\<lambda>x. if dept_id x = d
                              then x\<lparr>currentPatientLoad := currentPatientLoad x - 1\<rparr>
                              else x) (departments s)
           in (Inr updated, s\<lparr>departmentQueues := qs, departments := ds\<rparr>)))"

text \<open>\<open>completePatient\<close>: the only check is that the row exists.\<close>

definition completePatient :: "uuid \<Rightarrow> timestamp \<Rightarrow> db \<Rightarrow> (app_error + unit) \<times> db" where
  "completePatient qid now s =
     (case filter (\<lambda>e. queueId e = qid) (departmentQueues s) of
        [] \<Rightarrow> (Inl (AppError ''Queue entry not found'' 404), s)
      | queueEntry # _ \<Rightarrow>
          (Inr (), s\<lparr>departmentQueues :=
                     map (\<lambda>e. if queueId e = qid
                              then e\<lparr>status := COMPLETED, completedAt := Some now, updatedAt := now\<rparr>
                              else e) (departmentQueues s)\<rparr>))"

text \<open>\<open>skipPatient\<close>.\<close>

definition skipPatient :: "uuid \<Rightarrow> timestamp \<Rightarrow> db \<Rightarrow> (app_error + unit) \<times> db" where
  "skipPatient qid now s =
     (case filter (\<lambda>e. queueId e = qid) (departmentQueues s) of
        [] \<Rightarrow> (Inl (AppError ''Queue entry not found'' 404), s)
      | queueEntry # _ \<Rightarrow>
          (Inr (), s\<lparr>departmentQueues :=
                     map (\<lambda>e. if queueId e = qid
                              then e\<lparr>status := SKIPPED, updatedAt := now\<rparr>
                              else e) (departmentQueues s)\<rparr>))"

text \<open>
  \<open>updatePatientPosition\<close>. \<open>adjustPositions\<close> is the loop of lines 295-312 over the other
  waiting rows, with \<open>currentPos\<close> as its last argument; \<open>setPosition\<close> is one \<open>UPDATE\<close> of
  the loop of lines 315-323. Rows equal in position are taken in storage order here; no
  statement below depends on which of them comes first.
\<close>

fun adjustPositions :: "uuid \<Rightarrow> int \<Rightarrow> uuid list \<Rightarrow> int \<Rightarrow> (uuid \<times> int) list" where
  "adjustPositions qid newPosition [] currentPos =
     (if currentPos \<le> newPosition then [(qid, newPosition)] else [])"
| "adjustPositions qid newPosition (w # ws) currentPos =
     (if currentPos = newPosition
      then (qid, currentPos) # (w, currentPos + 1) # adjustPositions qid newPosition ws (currentPos + 2)
      else (w, currentPos) # adjustPositions qid newPosition ws (currentPos + 1))"

definition setPosition :: "timestamp \<Rightarrow> uuid \<times> int \<Rightarrow> queue_entry list \<Rightarrow> queue_entry list" where
  "setPosition now pos qs =
     map (\<lambda>e. if queueId e = fst pos then e\<lparr>positionInQueue := snd pos, updatedAt := now\<rparr> else e) qs"

definition updatePatientPosition ::
  "uuid \<Rightarrow> int \<Rightarrow> timestamp \<Rightarrow> db \<Rightarrow> (app_error + unit) \<times> db" where
  "updatePatientPosition qid newPosition now s =
     (case filter (\<lambda>e. queueId e = qid) (departmentQueues s) of
        [] \<Rightarrow> (Inl (AppError ''Queue entry not found'' 404), s)
      | queueEntry # _ \<Rightarrow>
          (let waitingPatients =
                 map queueId (sort_key positionInQueue
                   (filter (\<lambda>e. departmentId e = departmentId queueEntry \<and> status e = WAITING
                                \<and> queueId e \<noteq> qid) (departmentQueues s)));
               positions = adjustPositions qid newPosition waitingPatients 1
           in (Inr (), s\<lparr>departmentQueues := fold (setPosition now) positions (departmentQueues s)\<rparr>)))"

section \<open>TriageService\<close>


text \<open>
  \<open>prioritizeCriticalPatients\<close>: the waiting rows ordered by urgency and \<open>created_at\<close>, then
  row \<open>i\<close> of that result is given position \<open>i + 1\<close>.
\<close>

definition arrivalKey :: "queue_entry \<Rightarrow> nat \<times> timestamp" where
  "arrivalKey e = (urgencyRank (urgencyLevel e), createdAt e)"

definition waitingByArrival :: "(queue_entry \<Rightarrow> nat) \<Rightarrow> uuid \<Rightarrow> db \<Rightarrow> queue_entry list" where
  "waitingByArrival tie d s = orderBy arrivalKey tie (waitingIn d s)"

fun numberFrom :: "int \<Rightarrow> uuid list \<Rightarrow> (uuid \<times> int) list" where
  "numberFrom i [] = []"
| "numberFrom i (q # qs) = (q, i + 1) # numberFrom (i + 1) qs"

definition prioritizeCriticalPatients :: "(queue_entry \<Rightarrow> nat) \<Rightarrow> uuid \<Rightarrow> timestamp \<Rightarrow> db \<Rightarrow> db" where
  "prioritizeCriticalPatients tie d now s =
     s\<lparr>departmentQueues :=
         fold (setPosition now) (numberFrom 0 (map queueId (waitingByArrival tie d s))) (departmentQueues s)\<rparr>"

text \<open>
  \<open>determineDepartment(symptoms, vitals)\<close>. \<open>symptoms\<close> is a \<open>Record<string, any>\<close> read only
  through the truthiness of its entries, so it is the predicate "the entry under this key
  is truthy". \<open>vitals.oxygenSaturation\<close> is optional, and \<open>undefined < 92\<close> is false.
  The last test reads \<open>patient.age\<close>, and no \<open>patient\<close> is in scope in this function
  (neither a parameter, nor a local, nor an import): evaluating it throws a
  \<open>ReferenceError\<close>, which \<open>&&\<close> reaches exactly when \<open>symptoms.pediatric\<close> is truthy.
\<close>

datatype js_error = ReferenceError string

definition determineDepartment :: "(string \<Rightarrow> bool) \<Rightarrow> vitals \<Rightarrow> js_error + string" where
  "determineDepartment symptoms v =
     (if (case oxygenSaturation v of None \<Rightarrow> False | Some x \<Rightarrow> x < 92) \<or> symptoms ''chest_pain''
      then Inr ''Emergency/Cardiology''
      else if symptoms ''head_trauma'' \<or> symptoms ''seizure'' \<or> symptoms ''stroke_symptoms''
      then Inr ''Emergency/Neurology''
      else if symptoms ''abdominal_pain'' \<or> symptoms ''gastrointestinal_bleeding''
      then Inr ''Emergency/Surgery''
      else if symptoms ''fever'' \<and> (symptoms ''cough'' \<or> symptoms ''shortness_of_breath'')
      then Inr ''Emergency/Infectious Diseases''
      else if symptoms ''burn'' \<or> symptoms ''trauma''
      then Inr ''Emergency/Trauma''
      else if symptoms ''pediatric''
      then Inl (ReferenceError ''patient is not defined'')
      else Inr ''Emergency/General'')"

text \<open>
  What the database accepts in a column. An \<open>integer\<close> column takes a whole number of 32
  bits: a number with a fraction is refused. A \<open>numeric(p, 2)\<close> column rounds to two
  decimals and refuses a value whose rounding needs more than \<open>p - 2\<close> digits before the
  point: \<open>numeric(4, 2)\<close> holds up to 99.99 and refuses 100.
\<close>

definition fitsInteger :: "int \<Rightarrow> bool" where
  "fitsInteger n \<longleftrightarrow> - 2147483648 \<le> n \<and> n \<le> 2147483647"

definition integerColumn :: "real \<Rightarrow> bool" where
  "integerColumn x \<longleftrightarrow> of_int \<lfloor>x\<rfloor> = x \<and> fitsInteger \<lfloor>x\<rfloor>"

definition numericColumn :: "nat \<Rightarrow> real \<Rightarrow> bool" where
  "numericColumn digits x \<longleftrightarrow> \<bar>x\<bar> < 10 ^ digits - 5 / 1000"

definition nullable :: "(real \<Rightarrow> bool) \<Rightarrow> real option \<Rightarrow> bool" where
  "nullable accepts x = (case x of None \<Rightarrow> True | Some v \<Rightarrow> accepts v)"

text \<open>
  \<open>performTriage\<close>. The module \<open>utils/TriageCalculator\<close> is not among the sources, so its
  three functions are parameters of the model, collected in \<open>triage_calculator\<close>, with
  whole numbers for the score and the estimate.

  Lines 69-117 compute the score, the urgency, the body mass index (\<open>weight && height\<close>
  holds for numbers other than 0) and the estimate from the count of the department's
  WAITING rows. The transaction of lines 120-162 inserts the session row, then the queue
  row, then adds one to the department's load. \<open>triageSessionAccepted\<close> and
  \<open>queueRowAccepted\<close> say when the database takes the two rows: foreign keys, column
  types, and the generated primary key of the queue row, which is the parameter \<open>qid\<close>;
  \<open>loadUpdateAccepted\<close> says when it takes the new load. A refused statement rolls the
  transaction back, and the outer \<open>catch\<close> turns it into the 500
  error, as it does with the \<open>ReferenceError\<close> of \<open>determineDepartment\<close>. The critical
  alert, which swallows its own failures, is left out.
\<close>

record triage_calculator =
  calculateMEWS :: "real \<Rightarrow> real \<Rightarrow> real \<Rightarrow> real \<Rightarrow> real \<Rightarrow> int"
  getUrgencyLevel :: "int \<Rightarrow> urgency"
  estimateWaitTime :: "urgency \<Rightarrow> int \<Rightarrow> int \<Rightarrow> int"

record triage_data =
  td_patientId :: uuid
  td_nurseId :: uuid
  td_vitals :: vitals
  td_symptoms :: "string \<Rightarrow> bool"
  td_chiefComplaint :: "string option"

text \<open>\<open>x || 0\<close> on an optional number.\<close>

definition orZero :: "real option \<Rightarrow> real" where
  "orZero x = (case x of None \<Rightarrow> 0 | Some v \<Rightarrow> v)"

definition intakeScore :: "triage_calculator \<Rightarrow> triage_data \<Rightarrow> int" where
  "intakeScore tc td =
     (let v = td_vitals td
      in calculateMEWS tc (orZero (respiratoryRate v)) (orZero (oxygenSaturation v))
           (orZero (temperature v)) (orZero (systolicBp v)) (orZero (heartRate v)))"

definition intakeUrgency :: "triage_calculator \<Rightarrow> triage_data \<Rightarrow> urgency" where
  "intakeUrgency tc td = getUrgencyLevel tc (intakeScore tc td)"

text \<open>The count query of lines 96-104, as \<open>Number(queueCount?.count || 0)\<close> reads it.\<close>

definition queueCount :: "uuid \<Rightarrow> db \<Rightarrow> int" where
  "queueCount d s = int (length (waitingIn d s))"

definition bodyMassIndex :: "vitals \<Rightarrow> real option" where
  "bodyMassIndex v =
     (case (weight v, height v) of
        (Some w, Some h) \<Rightarrow> if w \<noteq> 0 \<and> h \<noteq> 0 then Some (w / ((h / 100) * (h / 100))) else None
      | _ \<Rightarrow> None)"

definition intakeWait :: "triage_calculator \<Rightarrow> triage_data \<Rightarrow> department \<Rightarrow> db \<Rightarrow> int" where
  "intakeWait tc td dept s =
     estimateWaitTime tc (intakeUrgency tc td) (queueCount (dept_id dept) s) (averageTreatmentTime dept)"

text \<open>The values of the first insert (lines 124-135) and what makes the database take them.\<close>

definition triageSessionRow ::
  "triage_calculator \<Rightarrow> triage_data \<Rightarrow> string \<Rightarrow> department \<Rightarrow> db \<Rightarrow> triage_session" where
  "triageSessionRow tc td dname dept s =
     \<lparr>ts_patientId = td_patientId td, ts_nurseId = td_nurseId td, ts_vitals = td_vitals td,
      ts_bmi = bodyMassIndex (td_vitals td), ts_symptoms = td_symptoms td,
      ts_chiefComplaint = td_chiefComplaint td, triageScore = intakeScore tc td,
      ts_urgencyLevel = intakeUrgency tc td, recommendedDept = dname,
      estimatedWaitMinutes = intakeWait tc td dept s\<rparr>"

definition triageSessionAccepted :: "db \<Rightarrow> triage_session \<Rightarrow> bool" where
  "triageSessionAccepted s row \<longleftrightarrow>
     ts_patientId row \<in> set (patientKeys s) \<and> ts_nurseId row \<in> set (userKeys s)
     \<and> nullable (numericColumn 2) (temperature (ts_vitals row))
     \<and> nullable integerColumn (systolicBp (ts_vitals row))
     \<and> nullable integerColumn (diastolicBp (ts_vitals row))
     \<and> nullable integerColumn (heartRate (ts_vitals row))
     \<and> nullable integerColumn (respiratoryRate (ts_vitals row))
     \<and> nullable (numericColumn 2) (oxygenSaturation (ts_vitals row))
     \<and> nullable (numericColumn 3) (bloodGlucose (ts_vitals row))
     \<and> integerColumn (painScale (ts_vitals row))
     \<and> nullable (numericColumn 3) (weight (ts_vitals row))
     \<and> nullable (numericColumn 3) (height (ts_vitals row))
     \<and> nullable (numericColumn 2) (ts_bmi row)
     \<and> fitsInteger (triageScore row)
     \<and> length (recommendedDept row) \<le> 50
     \<and> fitsInteger (estimatedWaitMinutes row)"

text \<open>The values of the second insert (lines 139-150) and what makes the database take them.\<close>

definition queueRow ::
  "triage_calculator \<Rightarrow> triage_data \<Rightarrow> uuid \<Rightarrow> timestamp \<Rightarrow> department \<Rightarrow> db \<Rightarrow> queue_entry" where
  "queueRow tc td qid now dept s =
     \<lparr>queueId = qid, departmentId = dept_id dept, patientId = td_patientId td,
      urgencyLevel = intakeUrgency tc td, positionInQueue = queueCount (dept_id dept) s + 1,
      expectedWaitTime = intakeWait tc td dept s, status = WAITING, calledAt = None,
      completedAt = None, assignedDoctorId = None, createdAt = now, updatedAt = now\<rparr>"

definition queueRowAccepted :: "db \<Rightarrow> queue_entry \<Rightarrow> bool" where
  "queueRowAccepted s row \<longleftrightarrow>
     queueId row \<notin> set (map queueId (departmentQueues s))
     \<and> patientId row \<in> set (patientKeys s)
     \<and> fitsInteger (positionInQueue row) \<and> fitsInteger (expectedWaitTime row)"

text \<open>
  The third statement of the transaction, \<open>current_patient_load + 1\<close> on the department's
  row: the sum has to fit the \<open>integer\<close> column.
\<close>

definition loadUpdateAccepted :: "department \<Rightarrow> db \<Rightarrow> bool" where
  "loadUpdateAccepted dept s \<longleftrightarrow>
     (\<forall>x \<in> set (departments s). dept_id x = dept_id dept \<longrightarrow> fitsInteger (currentPatientLoad x + 1))"

definition performTriage ::
  "triage_calculator \<Rightarrow> triage_data \<Rightarrow> uuid \<Rightarrow> timestamp \<Rightarrow> db \<Rightarrow> (app_error + queue_entry) \<times> db" where
  "performTriage tc triageData qid now s =
     (case determineDepartment (td_symptoms triageData) (td_vitals triageData) of
        Inl _ \<Rightarrow> (Inl (AppError ''Failed to perform triage'' 500), s)
      | Inr recommended \<Rightarrow>
          (case filter (\<lambda>x. dept_name x = recommended) (departments s) of
             [] \<Rightarrow> (Inl (AppError ''Department not found'' 404), s)
           | dept # _ \<Rightarrow>
               (let triageSession = triageSessionRow tc triageData recommended dept s;
                    queueEntry = queueRow tc triageData qid now dept s
                in if \<not> triageSessionAccepted s triageSession
                   then (Inl (AppError ''Failed to perform triage'' 500), s)
                   else if \<not> queueRowAccepted s queueEntry
                   then (Inl (AppError ''Failed to perform triage'' 500), s)
                   else if \<not> loadUpdateAccepted dept s
                   then (Inl (AppError ''Failed to perform triage'' 500), s)
                   else (Inr queueEntry,
                         s\<lparr>triageSessions := triageSessions s @ [triageSession],
                           departmentQueues := departmentQueues s @ [queueEntry],
                           departments := map (\<lambda>x. if dept_id x = dept_id dept
                                                    then x\<lparr>currentPatientLoad := currentPatientLoad x + 1\<rparr>
                                                    else x) (departments s)\<rparr>))))"

section \<open>Concrete states\<close>

definition mkEntry ::
  "uuid \<Rightarrow> uuid \<Rightarrow> uuid \<Rightarrow> urgency \<Rightarrow> int \<Rightarrow> queue_status \<Rightarrow> timestamp \<Rightarrow> queue_entry" where
  "mkEntry q d p u pos st t =
     \<lparr>queueId = q, departmentId = d, patientId = p, urgencyLevel = u, positionInQueue = pos,
      expectedWaitTime = 15, status = st, calledAt = None, completedAt = None,
      assignedDoctorId = None, createdAt = t, updatedAt = t\<rparr>"

definition generalDept :: "int \<Rightarrow> department" where
  "generalDept n = \<lparr>dept_id = 1, dept_name = ''Emergency/General'', currentPatientLoad = n,
                    maxCapacity = 50, averageTreatmentTime = 20\<rparr>"

text \<open>
  A state with the given queue rows and departments, no session row, the patients 7, 11,
  12 and 13, and the staff members 8 (a nurse) and 9 (a doctor).
\<close>

definition mkDb :: "queue_entry list \<Rightarrow> department list \<Rightarrow> db" where
  "mkDb qs ds = \<lparr>departmentQueues = qs, departments = ds, triageSessions = [],
                 patientKeys = [7, 11, 12, 13], userKeys = [8, 9]\<rparr>"

definition plainVitals :: vitals where
  "plainVitals = \<lparr>temperature = None, systolicBp = None, diastolicBp = None, heartRate = None,
                   respiratoryRate = None, oxygenSaturation = Some 98, bloodGlucose = None,
                   painScale = 3, weight = None, height = None\<rparr>"

text \<open>An intake whose only truthy symptom entry is \<open>pediatric\<close>.\<close>

definition pediatricIntake :: triage_data where
  "pediatricIntake = \<lparr>td_patientId = 7, td_nurseId = 8, td_vitals = plainVitals,
                       td_symptoms = (\<lambda>k. k = ''pediatric''), td_chiefComplaint = None\<rparr>"

text \<open>One waiting GREEN row, of patient 7, at position 1 of department 1.\<close>

definition oneWaiting :: db where
  "oneWaiting = mkDb [mkEntry 1 1 7 GREEN 1 WAITING 0] [generalDept 1]"

text \<open>An intake of patient 7 with no truthy symptom entry: it is routed to Emergency/General.\<close>

definition plainIntake :: triage_data where
  "plainIntake = \<lparr>td_patientId = 7, td_nurseId = 8, td_vitals = plainVitals,
                   td_symptoms = (\<lambda>k. False), td_chiefComplaint = None\<rparr>"

text \<open>
  Modelled from the spec: \<open>utils/TriageCalculator\<close> is not among the sources. The theorems
  below hold for every calculator; the concrete runs use this instance, in which every
  intake scores \<open>m\<close>, the score is classified with the thresholds of section 4.1 (7 and
  above RED, 4 to 6 YELLOW, below GREEN), and the estimate is the product of queue depth and
  average treatment time of section 4.2, without its clamps.
\<close>

definition constCalculator :: "int \<Rightarrow> triage_calculator" where
  "constCalculator m =
     \<lparr>calculateMEWS = (\<lambda>rr o2 t sbp hr. m),
      getUrgencyLevel = (\<lambda>score. if score \<ge> 7 then RED else if score \<ge> 4 then YELLOW else GREEN),
      estimateWaitTime = (\<lambda>u n t. n * t)\<rparr>"

text \<open>A waiting RED row at position 1 and a waiting GREEN row at position 2.\<close>

definition redAndGreen :: db where
  "redAndGreen = mkDb [mkEntry 1 1 11 RED 1 WAITING 0, mkEntry 2 1 12 GREEN 2 WAITING 1] [generalDept 2]"

text \<open>The row that a RED intake of patient 7 at time 5 adds to \<open>oneWaiting\<close>.\<close>

definition redArrival :: queue_entry where
  "redArrival = (mkEntry 2 1 7 RED 2 WAITING 5)\<lparr>expectedWaitTime := 20\<rparr>"

text \<open>Two waiting GREEN rows at positions 1 and 2 of department 1.\<close>

definition twoWaiting :: db where
  "twoWaiting = mkDb [mkEntry 1 1 11 GREEN 1 WAITING 0, mkEntry 2 1 12 GREEN 2 WAITING 1] [generalDept 2]"


text \<open>A department with no row at all.\<close>

definition emptyQueue :: db where
  "emptyQueue = mkDb [] [generalDept 0]"

text \<open>The state after the next patient of \<open>twoWaiting\<close> was called by doctor 9 at time 5.\<close>

definition calledAndWaiting :: db where
  "calledAndWaiting = mkDb [called 9 5 (mkEntry 1 1 11 GREEN 1 WAITING 0),
                            mkEntry 2 1 12 GREEN 2 WAITING 1] [generalDept 1]"


section \<open>Notions used in the statements\<close>

text \<open>
  The specification's count for an arrival of urgency \<open>u\<close>: the waiting rows of the department
  that are at least as urgent as \<open>u\<close> ("urgency rank \<open>\<le>\<close> the new entry's rank" in 4.3, "RED
  counts ahead of YELLOW and GREEN; equal urgency counts as ahead" in 4.2).
\<close>

definition countAheadOrEqualPriority :: "urgency \<Rightarrow> uuid \<Rightarrow> db \<Rightarrow> int" where
  "countAheadOrEqualPriority u d s =
     int (length (filter (\<lambda>e. urgencyRank (urgencyLevel e) \<le> urgencyRank u) (waitingIn d s)))"

text \<open>The other reading of "rank \<open>\<ge>\<close>" in 4.2, with RED as rank 1: the rows at most as urgent as \<open>u\<close>.\<close>

definition countBehindOrEqualPriority :: "urgency \<Rightarrow> uuid \<Rightarrow> db \<Rightarrow> int" where
  "countBehindOrEqualPriority u d s =
     int (length (filter (\<lambda>e. urgencyRank u \<le> urgencyRank (urgencyLevel e)) (waitingIn d s)))"

text \<open>The active rows (WAITING or IN_PROGRESS) of a patient in a department.\<close>

definition activeEntries :: "uuid \<Rightarrow> uuid \<Rightarrow> db \<Rightarrow> queue_entry list" where
  "activeEntries p d s =
     filter (\<lambda>e. patientId e = p \<and> departmentId e = d \<and> (status e = WAITING \<or> status e = IN_PROGRESS))
       (departmentQueues s)"

text \<open>
  Dense positions: read in ascending order, the positions of the department's WAITING rows
  are exactly 1, 2, ..., N.
\<close>

definition densePositions :: "uuid \<Rightarrow> db \<Rightarrow> bool" where
  "densePositions d s \<longleftrightarrow>
     sort (map positionInQueue (waitingIn d s)) = [1 .. int (length (waitingIn d s))]"

text \<open>
  The effect on one row of a whole run of position updates with distinct keys: the row
  gets the position listed under its key, if any.
\<close>

definition renumbered :: "timestamp \<Rightarrow> (uuid \<times> int) list \<Rightarrow> queue_entry \<Rightarrow> queue_entry" where
  "renumbered now as e =
     (case map_of as (queueId e) of
        None \<Rightarrow> e
      | Some p \<Rightarrow> e\<lparr>positionInQueue := p, updatedAt := now\<rparr>)"





text \<open>
  Sequences of the three operations that touch the load counter or the set of active rows.
\<close>

datatype queue_op =
    Intake triage_data uuid timestamp
  | CallNext uuid uuid timestamp
  | Complete uuid timestamp

fun apply_op :: "triage_calculator \<Rightarrow> queue_op \<Rightarrow> db \<Rightarrow> db" where
  "apply_op tc (Intake td qid now) s = snd (performTriage tc td qid now s)"
| "apply_op tc (CallNext d doctorId now) s = snd (callNextPatient d doctorId now s)"
| "apply_op tc (Complete qid now) s = snd (completePatient qid now s)"

definition run :: "triage_calculator \<Rightarrow> queue_op list \<Rightarrow> db \<Rightarrow> db" where
  "run tc ops s = fold (apply_op tc) ops s"

text \<open>The rows of a department that are WAITING or IN_PROGRESS, and those never called.\<close>

definition activeIn :: "uuid \<Rightarrow> db \<Rightarrow> queue_entry list" where
  "activeIn d s =
     filter (\<lambda>e. departmentId e = d \<and> (status e = WAITING \<or> status e = IN_PROGRESS)) (departmentQueues s)"

definition uncalledIn :: "uuid \<Rightarrow> db \<Rightarrow> queue_entry list" where
  "uncalledIn d s = filter (\<lambda>e. departmentId e = d \<and> calledAt e = None) (departmentQueues s)"

text \<open>
  Primary keys are distinct in both tables and no WAITING row carries a \<open>calledAt\<close> stamp;
  every department's load counter is the number of its rows never called.
\<close>

definition wellKeyed :: "db \<Rightarrow> bool" where
  "wellKeyed s \<longleftrightarrow>
     distinct (map queueId (departmentQueues s)) \<and> distinct (map dept_id (departments s))
     \<and> (\<forall>e \<in> set (departmentQueues s). status e = WAITING \<longrightarrow> calledAt e = None)"

definition loadCounts :: "db \<Rightarrow> bool" where
  "loadCounts s \<longleftrightarrow>
     (\<forall>x \<in> set (departments s). currentPatientLoad x = int (length (uncalledIn (dept_id x) s)))"

section \<open>Verified properties\<close>

subsection \<open>Completing an entry\<close>

text \<open>
  C5, as the code has it: \<open>completePatient\<close> has no guard on the current status. For a key
  that is in the table it succeeds, every row with that key gets status COMPLETED and the
  \<open>completedAt\<close> stamp whatever its status was, and all other rows and the departments are
  as before; for a key that is not in the table it fails with the 404 "Queue entry not
  found" error and the state is the one given.
\<close>

theorem completePatient_unguarded:
  "(qid \<in> set (map queueId (departmentQueues s)) \<longrightarrow>
      fst (completePatient qid now s) = Inr () \<and>
      departments (snd (completePatient qid now s)) = departments s \<and>
      length (departmentQueues (snd (completePatient qid now s))) = length (departmentQueues s) \<and>
      (\<forall>i < length (departmentQueues s).
         departmentQueues (snd (completePatient qid now s)) ! i =
           (if queueId (departmentQueues s ! i) = qid
            then (departmentQueues s ! i)\<lparr>status := COMPLETED, completedAt := Some now, updatedAt := now\<rparr>
            else departmentQueues s ! i)))
   \<and> (qid \<notin> set (map queueId (departmentQueues s)) \<longrightarrow>
      completePatient qid now s = (Inl (AppError ''Queue entry not found'' 404), s))"
proof -
  have "filter (\<lambda>e. queueId e = qid) (departmentQueues s) = []
          \<longleftrightarrow> qid \<notin> set (map queueId (departmentQueues s))"
    by (auto simp: filter_empty_conv)
  then show ?thesis
    by (auto simp: completePatient_def split: list.splits)
qed

theorem completePatient_unguarded_witness:
  "fst (completePatient 1 5 oneWaiting) = Inr ()
   \<and> map status (departmentQueues (snd (completePatient 1 5 oneWaiting))) = [COMPLETED]
   \<and> map completedAt (departmentQueues (snd (completePatient 1 5 oneWaiting))) = [Some 5]
   \<and> completePatient 99 5 oneWaiting = (Inl (AppError ''Queue entry not found'' 404), oneWaiting)"
  using completePatient_unguarded [of 1 oneWaiting 5] completePatient_unguarded [of 99 oneWaiting 5]
  by (simp add: oneWaiting_def mkEntry_def mkDb_def completePatient_def)

text \<open>
  C5 as the specification states it fails: the row below is WAITING, not IN_PROGRESS, and
  completing it succeeds and leaves it COMPLETED.
\<close>

theorem completePatient_waiting_counterexample:
  "status (mkEntry 1 1 7 GREEN 1 WAITING 0) \<noteq> IN_PROGRESS
   \<and> fst (completePatient 1 5 oneWaiting) = Inr ()
   \<and> map status (departmentQueues oneWaiting) = [WAITING]
   \<and> map status (departmentQueues (snd (completePatient 1 5 oneWaiting))) = [COMPLETED]"
  by (simp add: completePatient_def oneWaiting_def mkEntry_def mkDb_def)

subsection \<open>Department routing\<close>

text \<open>
  C8: routing is not total. On an intake that validation accepts (pain scale 3, oxygen
  saturation 98) and whose only truthy symptom is \<open>pediatric\<close>, \<open>determineDepartment\<close>
  throws the \<open>ReferenceError\<close> of the unbound \<open>patient\<close>, and \<open>performTriage\<close> fails with
  the 500 error "Failed to perform triage", whatever the calculator, leaving the state as
  it was.
\<close>

theorem determineDepartment_pediatric_throws:
  "determineDepartment (td_symptoms pediatricIntake) (td_vitals pediatricIntake)
     = Inl (ReferenceError ''patient is not defined'')
   \<and> performTriage tc pediatricIntake 2 5 oneWaiting
     = (Inl (AppError ''Failed to perform triage'' 500), oneWaiting)"
  by (simp add: determineDepartment_def performTriage_def pediatricIntake_def plainVitals_def)

subsection \<open>Triage intake\<close>

text \<open>What a successful \<open>performTriage\<close> did, and when it succeeds.\<close>

lemma performTriage_cases:
  "fst (performTriage tc td qid now s) = Inr e \<Longrightarrow>
   \<exists>nm dept rest. determineDepartment (td_symptoms td) (td_vitals td) = Inr nm
     \<and> filter (\<lambda>x. dept_name x = nm) (departments s) = dept # rest
     \<and> triageSessionAccepted s (triageSessionRow tc td nm dept s)
     \<and> queueRowAccepted s (queueRow tc td qid now dept s)
     \<and> loadUpdateAccepted dept s
     \<and> qid \<notin> set (map queueId (departmentQueues s))
     \<and> e = queueRow tc td qid now dept s
     \<and> snd (performTriage tc td qid now s) =
         s\<lparr>triageSessions := triageSessions s @ [triageSessionRow tc td nm dept s],
           departmentQueues := departmentQueues s @ [e],
           departments := map (\<lambda>x. if dept_id x = dept_id dept
                                    then x\<lparr>currentPatientLoad := currentPatientLoad x + 1\<rparr>
                                    else x) (departments s)\<rparr>"
  by (auto simp: performTriage_def Let_def queueRowAccepted_def queueRow_def
           split: sum.splits list.splits if_splits)

lemma performTriage_succeeds:
  assumes "determineDepartment (td_symptoms td) (td_vitals td) = Inr nm"
    and "filter (\<lambda>x. dept_name x = nm) (departments s) = dept # rest"
    and "triageSessionAccepted s (triageSessionRow tc td nm dept s)"
    and "queueRowAccepted s (queueRow tc td qid now dept s)"
    and "loadUpdateAccepted dept s"
  shows "\<exists>e. fst (performTriage tc td qid now s) = Inr e"
  using assms by (auto simp: performTriage_def Let_def)

lemma performTriage_fails_unchanged:
  "fst (performTriage tc td qid now s) = Inl err \<Longrightarrow> snd (performTriage tc td qid now s) = s"
  by (auto simp: performTriage_def Let_def split: sum.splits list.splits if_splits)

text \<open>
  The database refuses the session row of an intake that request validation accepts: an
  oxygen saturation of 100 does not fit \<open>numeric(4, 2)\<close>, and a pain scale of 3.5 is not an
  \<open>integer\<close>. \<open>performTriage\<close> then fails with the 500 error and writes nothing.
\<close>

lemma performTriage_refused_session:
  assumes "oxygenSaturation (td_vitals td) = Some 100 \<or> painScale (td_vitals td) = 7 / 2"
  shows "(fst (performTriage tc td qid now s) = Inl (AppError ''Failed to perform triage'' 500)
          \<or> fst (performTriage tc td qid now s) = Inl (AppError ''Department not found'' 404))
       \<and> snd (performTriage tc td qid now s) = s"
proof -
  have half: "\<not> integerColumn (7 / 2)"
  proof
    assume "integerColumn (7 / 2)"
    then have "real_of_int \<lfloor>7 / 2 :: real\<rfloor> = 7 / 2" by (simp add: integerColumn_def)
    then have "real_of_int (2 * \<lfloor>7 / 2 :: real\<rfloor>) = real_of_int 7" by simp
    then have "2 * \<lfloor>7 / 2 :: real\<rfloor> = 7" by (simp only: of_int_eq_iff)
    then show False by presburger
  qed
  have hundred: "\<not> numericColumn 2 100"
    by (simp add: numericColumn_def)
  have "\<not> triageSessionAccepted s (triageSessionRow tc td nm dept s)" for nm dept
  proof
    assume "triageSessionAccepted s (triageSessionRow tc td nm dept s)"
    then have o: "nullable (numericColumn 2) (oxygenSaturation (td_vitals td))"
      and p: "integerColumn (painScale (td_vitals td))"
      by (simp_all add: triageSessionAccepted_def triageSessionRow_def)
    from assms show False
    proof
      assume "oxygenSaturation (td_vitals td) = Some 100"
      with o hundred show False by (simp add: nullable_def)
    next
      assume e: "painScale (td_vitals td) = 7 / 2"
      from p have "integerColumn (7 / 2)" unfolding e .
      with half show False ..
    qed
  qed
  then show ?thesis
    by (auto simp: performTriage_def Let_def split: sum.splits list.splits)
qed

lemmas intake_run_defs =
  performTriage_def Let_def constCalculator_def plainIntake_def plainVitals_def oneWaiting_def
  mkEntry_def mkDb_def generalDept_def determineDepartment_def queueCount_def waitingIn_def orZero_def
  triageSessionRow_def triageSessionAccepted_def queueRow_def queueRowAccepted_def
  intakeScore_def intakeUrgency_def intakeWait_def bodyMassIndex_def
  nullable_def numericColumn_def integerColumn_def fitsInteger_def loadUpdateAccepted_def

text \<open>
  C2, as the code has it: the row that a successful intake creates is placed at the number
  of all WAITING rows of its department plus one, whatever the urgencies, and it is appended
  to the table: no existing row is changed, so no position is shifted.
\<close>

theorem performTriage_appends_at_tail:
  assumes "fst (performTriage tc td qid now s) = Inr e"
  shows "positionInQueue e = int (length (waitingIn (departmentId e) s)) + 1
     \<and> departmentQueues (snd (performTriage tc td qid now s)) = departmentQueues s @ [e]"
  using performTriage_cases [OF assms] by (auto simp: queueCount_def queueRow_def)

theorem performTriage_appends_at_tail_witness:
  "fst (performTriage (constCalculator 7) plainIntake 2 5 oneWaiting) = Inr redArrival
   \<and> positionInQueue redArrival = int (length (waitingIn (departmentId redArrival) oneWaiting)) + 1
   \<and> departmentQueues (snd (performTriage (constCalculator 7) plainIntake 2 5 oneWaiting))
       = departmentQueues oneWaiting @ [redArrival]"
proof -
  have h: "fst (performTriage (constCalculator 7) plainIntake 2 5 oneWaiting) = Inr redArrival"
    by (simp add: intake_run_defs redArrival_def)
  show ?thesis
    using h performTriage_appends_at_tail [OF h] by simp
qed

text \<open>
  C2 as the specification states it fails on its own example: a RED intake into a queue
  holding one WAITING GREEN row at position 1 is placed at position 2, not at the
  specification's position (rows at least as urgent, plus one) which is 1, and the GREEN row
  stays at position 1.
\<close>

theorem performTriage_red_after_green_counterexample:
  "map_sum id urgencyLevel (fst (performTriage (constCalculator 7) plainIntake 2 5 oneWaiting)) = Inr RED
   \<and> map_sum id positionInQueue (fst (performTriage (constCalculator 7) plainIntake 2 5 oneWaiting)) = Inr 2
   \<and> countAheadOrEqualPriority RED 1 oneWaiting + 1 = 1
   \<and> map urgencyLevel (departmentQueues (snd (performTriage (constCalculator 7) plainIntake 2 5 oneWaiting)))
       = [GREEN, RED]
   \<and> map positionInQueue (departmentQueues (snd (performTriage (constCalculator 7) plainIntake 2 5 oneWaiting)))
       = [1, 2]"
  by (simp add: intake_run_defs countAheadOrEqualPriority_def)

text \<open>
  C4, as the code has it: \<open>performTriage\<close> makes no check for an existing entry of the
  patient. Whenever routing returns a department name, a department of that name exists,
  and the database takes the session row, the queue row and the new load of the intake
  (the patient and the nurse exist, the values fit their columns, the new key is fresh),
  the intake succeeds; the new WAITING row of the patient is appended, all existing rows are as
  before, and the patient's active rows in that department are the former ones plus the
  new one, however many there were.
\<close>

theorem performTriage_no_duplicate_check:
  assumes "determineDepartment (td_symptoms td) (td_vitals td) = Inr nm"
    and "filter (\<lambda>x. dept_name x = nm) (departments s) = dept # rest"
    and "triageSessionAccepted s (triageSessionRow tc td nm dept s)"
    and "queueRowAccepted s (queueRow tc td qid now dept s)"
    and "loadUpdateAccepted dept s"
  shows "\<exists>e. fst (performTriage tc td qid now s) = Inr e
           \<and> patientId e = td_patientId td \<and> status e = WAITING
           \<and> departmentQueues (snd (performTriage tc td qid now s)) = departmentQueues s @ [e]
           \<and> activeEntries (td_patientId td) (departmentId e) (snd (performTriage tc td qid now s))
               = activeEntries (td_patientId td) (departmentId e) s @ [e]"
proof -
  from performTriage_succeeds [OF assms]
  obtain e where e: "fst (performTriage tc td qid now s) = Inr e" by blast
  from performTriage_cases [OF e] show ?thesis
    using e by (auto simp: activeEntries_def queueRow_def)
qed

theorem performTriage_no_duplicate_check_witness:
  "length (activeEntries 7 1 oneWaiting) = 1
   \<and> triageSessionAccepted oneWaiting
        (triageSessionRow (constCalculator 0) plainIntake ''Emergency/General'' (generalDept 1) oneWaiting)
   \<and> queueRowAccepted oneWaiting (queueRow (constCalculator 0) plainIntake 2 5 (generalDept 1) oneWaiting)
   \<and> loadUpdateAccepted (generalDept 1) oneWaiting
   \<and> (\<exists>e. fst (performTriage (constCalculator 0) plainIntake 2 5 oneWaiting) = Inr e
           \<and> patientId e = td_patientId plainIntake \<and> status e = WAITING
           \<and> departmentQueues (snd (performTriage (constCalculator 0) plainIntake 2 5 oneWaiting))
               = departmentQueues oneWaiting @ [e]
           \<and> activeEntries (td_patientId plainIntake) (departmentId e)
                 (snd (performTriage (constCalculator 0) plainIntake 2 5 oneWaiting))
               = activeEntries (td_patientId plainIntake) (departmentId e) oneWaiting @ [e])"
proof -
  have 1: "determineDepartment (td_symptoms plainIntake) (td_vitals plainIntake) = Inr ''Emergency/General''"
    by (simp add: determineDepartment_def plainIntake_def plainVitals_def)
  have 2: "filter (\<lambda>x. dept_name x = ''Emergency/General'') (departments oneWaiting) = generalDept 1 # []"
    by (simp add: oneWaiting_def mkDb_def generalDept_def)
  have 3: "triageSessionAccepted oneWaiting
        (triageSessionRow (constCalculator 0) plainIntake ''Emergency/General'' (generalDept 1) oneWaiting)"
    by (simp add: intake_run_defs)
  have 4: "queueRowAccepted oneWaiting (queueRow (constCalculator 0) plainIntake 2 5 (generalDept 1) oneWaiting)"
    by (simp add: intake_run_defs)
  have 5: "length (activeEntries 7 1 oneWaiting) = 1"
    by (simp add: activeEntries_def oneWaiting_def mkDb_def mkEntry_def)
  have 6: "loadUpdateAccepted (generalDept 1) oneWaiting"
    by (simp add: intake_run_defs)
  show ?thesis
    using 3 4 5 6 performTriage_no_duplicate_check [OF 1 2 3 4 6] by blast
qed

text \<open>
  C4 as the specification states it fails: patient 7 has a WAITING row in department 1, and
  a second intake of patient 7 into department 1 succeeds, after which the patient has two
  active rows there.
\<close>

theorem performTriage_second_active_entry_counterexample:
  "map patientId (activeEntries 7 1 oneWaiting) = [7]
   \<and> map_sum id queueId (fst (performTriage (constCalculator 0) plainIntake 2 5 oneWaiting)) = Inr 2
   \<and> map queueId (activeEntries 7 1 (snd (performTriage (constCalculator 0) plainIntake 2 5 oneWaiting)))
       = [1, 2]"
  by (simp add: intake_run_defs activeEntries_def)

text \<open>
  C9, as the code has it: the queue depth given to the estimator is \<open>queueCount\<close>, the number
  of all WAITING rows of the target department, whatever their urgency.
\<close>

theorem performTriage_estimator_depth:
  assumes "fst (performTriage tc td qid now s) = Inr e"
  shows "queueCount (departmentId e) s
           = int (length (filter (\<lambda>x. departmentId x = departmentId e \<and> status x = WAITING)
                                 (departmentQueues s)))
     \<and> (\<exists>dept \<in> set (departments s). dept_id dept = departmentId e
           \<and> expectedWaitTime e
               = estimateWaitTime tc (urgencyLevel e) (queueCount (departmentId e) s)
                   (averageTreatmentTime dept))"
proof -
  from performTriage_cases [OF assms] obtain nm dept rest where
    f: "filter (\<lambda>x. dept_name x = nm) (departments s) = dept # rest"
    and d: "departmentId e = dept_id dept" "urgencyLevel e = intakeUrgency tc td"
      "expectedWaitTime e = estimateWaitTime tc (intakeUrgency tc td) (queueCount (dept_id dept) s)
                                  (averageTreatmentTime dept)"
    by (auto simp: queueRow_def intakeWait_def)
  have "dept \<in> set (filter (\<lambda>x. dept_name x = nm) (departments s))"
    unfolding f by simp
  then have "dept \<in> set (departments s)" by simp
  with d show ?thesis
    by (auto simp: queueCount_def waitingIn_def)
qed

theorem performTriage_estimator_depth_witness:
  "map_sum id expectedWaitTime (fst (performTriage (constCalculator 5) plainIntake 3 5 redAndGreen)) = Inr 40
   \<and> queueCount 1 redAndGreen = 2
   \<and> estimateWaitTime (constCalculator 5) YELLOW (queueCount 1 redAndGreen) 20 = 40"
proof -
  have h: "fst (performTriage (constCalculator 5) plainIntake 3 5 redAndGreen)
             = Inr ((mkEntry 3 1 7 YELLOW 3 WAITING 5)\<lparr>expectedWaitTime := 40\<rparr>)"
    by (simp add: intake_run_defs redAndGreen_def)
  show ?thesis
    using h performTriage_estimator_depth [OF h]
    by (simp add: mkEntry_def mkDb_def constCalculator_def queueCount_def waitingIn_def redAndGreen_def)
qed

text \<open>
  C9 as the specification states it fails: for a YELLOW intake into a queue with one
  WAITING RED and one WAITING GREEN row the estimator is given depth 2, the total, while the
  rows at least as urgent as YELLOW number 1 (and so do the rows at most as urgent); the
  stored estimate is 2 times 20.
\<close>

theorem performTriage_depth_counterexample:
  "map_sum id urgencyLevel (fst (performTriage (constCalculator 5) plainIntake 3 5 redAndGreen)) = Inr YELLOW
   \<and> map_sum id expectedWaitTime (fst (performTriage (constCalculator 5) plainIntake 3 5 redAndGreen))
       = Inr (estimateWaitTime (constCalculator 5) YELLOW 2 20)
   \<and> estimateWaitTime (constCalculator 5) YELLOW 2 20
       \<noteq> estimateWaitTime (constCalculator 5) YELLOW (countAheadOrEqualPriority YELLOW 1 redAndGreen) 20
   \<and> queueCount 1 redAndGreen = 2
   \<and> countAheadOrEqualPriority YELLOW 1 redAndGreen = 1
   \<and> countBehindOrEqualPriority YELLOW 1 redAndGreen = 1"
  by (simp add: intake_run_defs redAndGreen_def countAheadOrEqualPriority_def
        countBehindOrEqualPriority_def)

subsection \<open>Calling the next patient\<close>

lemma sort_key_head_min:
  assumes "sort_key f xs = m # rest"
  shows "m \<in> set xs \<and> (\<forall>w \<in> set xs. f m \<le> f w)"
proof -
  have "set (sort_key f xs) = set xs" by simp
  with assms have s: "set xs = insert m (set rest)" by simp
  have "sorted (map f (sort_key f xs))" by (rule sorted_sort_key)
  with assms have "\<forall>w \<in> set rest. f m \<le> f w" by auto
  with s show ?thesis by auto
qed

lemma find_updated_row:
  assumes "distinct (map queueId qs)" and "m \<in> set qs" and "queueId v = queueId m"
  shows "find (\<lambda>e. queueId e = queueId m) (map (\<lambda>e. if queueId e = queueId m then v else e) qs) = Some v"
  using assms(1,2)
proof (induction qs)
  case Nil then show ?case by simp
next
  case (Cons a qs)
  then show ?case using assms(3) by (auto simp: image_iff)
qed

lemma filter_map_replace:
  "\<not> P v \<Longrightarrow> filter P (map (\<lambda>e. if Q e then v else e) xs) = filter (\<lambda>e. \<not> Q e \<and> P e) xs"
  by (induction xs) auto

lemma same_key_same_row:
  "distinct (map queueId qs) \<Longrightarrow> a \<in> set qs \<Longrightarrow> b \<in> set qs \<Longrightarrow> queueId a = queueId b \<Longrightarrow> a = b"
  by (meson distinct_map inj_onD)

text \<open>The successful branch of \<open>callNextPatient\<close>, with the row it picks.\<close>

lemma callNextPatient_picks:
  assumes dist: "distinct (map queueId (departmentQueues s))"
    and ne: "waitingIn d s \<noteq> []"
  shows "\<exists>m \<in> set (waitingIn d s).
           (\<forall>w \<in> set (waitingIn d s). orderKey m \<le> orderKey w)
         \<and> callNextPatient d doctorId now s =
             (Inr (Some (called doctorId now m)),
              s\<lparr>departmentQueues := map (\<lambda>e. if queueId e = queueId m then called doctorId now m else e)
                                        (departmentQueues s),
                departments := map (\<lambda>x. if dept_id x = d
                                         then x\<lparr>currentPatientLoad := currentPatientLoad x - 1\<rparr>
                                         else x) (departments s)\<rparr>)"
proof -
  from ne have "sort_key orderKey (waitingIn d s) \<noteq> []"
    by (metis length_sort list.size(3) length_0_conv)
  then obtain m rest where mr: "sort_key orderKey (waitingIn d s) = m # rest"
    by (cases "sort_key orderKey (waitingIn d s)") auto
  from sort_key_head_min [OF mr] have m: "m \<in> set (waitingIn d s)"
    and mn: "\<forall>w \<in> set (waitingIn d s). orderKey m \<le> orderKey w" by auto
  from m have mq: "m \<in> set (departmentQueues s)" by (simp add: waitingIn_def)
  have rows: "map (\<lambda>e. if queueId e = queueId m then called doctorId now e else e) (departmentQueues s)
      = map (\<lambda>e. if queueId e = queueId m then called doctorId now m else e) (departmentQueues s)"
    using same_key_same_row [OF dist _ mq] by (intro map_cong) auto
  have fnd: "find (\<lambda>e. queueId e = queueId m)
          (map (\<lambda>e. if queueId e = queueId m then called doctorId now m else e) (departmentQueues s))
      = Some (called doctorId now m)"
    by (rule find_updated_row [OF dist mq]) (simp add: called_def)
  have "callNextPatient d doctorId now s =
     (Inr (Some (called doctorId now m)),
      s\<lparr>departmentQueues := map (\<lambda>e. if queueId e = queueId m then called doctorId now m else e)
                                (departmentQueues s),
        departments := map (\<lambda>x. if dept_id x = d
                                 then x\<lparr>currentPatientLoad := currentPatientLoad x - 1\<rparr>
                                 else x) (departments s)\<rparr>)"
    unfolding callNextPatient_def mr by (simp add: Let_def rows fnd)
  with m mn show ?thesis by blast
qed

lemma callNextPatient_empty:
  "waitingIn d s = [] \<Longrightarrow> callNextPatient d doctorId now s = (Inl (AppError ''No patients in queue'' 404), s)"
  by (simp add: callNextPatient_def)





subsection \<open>Renumbering loops\<close>

lemma renumbered_fields [simp]:
  "queueId (renumbered now as e) = queueId e"
  "departmentId (renumbered now as e) = departmentId e"
  "status (renumbered now as e) = status e"
  "urgencyLevel (renumbered now as e) = urgencyLevel e"
  "createdAt (renumbered now as e) = createdAt e"
  "patientId (renumbered now as e) = patientId e"
  by (simp_all add: renumbered_def split: option.splits)

lemma fold_setPosition:
  "distinct (map fst as) \<Longrightarrow> fold (setPosition now) as qs = map (renumbered now as) qs"
proof (induction as arbitrary: qs)
  case Nil
  then show ?case by (simp add: renumbered_def)
next
  case (Cons a as)
  then have nk: "map_of as (fst a) = None"
    by (simp add: map_of_eq_None_iff)
  have "fold (setPosition now) (a # as) qs = map (renumbered now as) (setPosition now a qs)"
    using Cons by simp
  also have "\<dots> = map (renumbered now (a # as)) qs"
    using nk by (cases a) (auto simp: setPosition_def renumbered_def)
  finally show ?case .
qed

lemma waitingIn_renumbered:
  "waitingIn d (s\<lparr>departmentQueues := map (renumbered now as) (departmentQueues s)\<rparr>)
     = map (renumbered now as) (waitingIn d s)"
  by (simp add: waitingIn_def filter_map comp_def)

lemma map_of_keys_values:
  "distinct (map fst as) \<Longrightarrow> map (\<lambda>k. the (map_of as k)) (map fst as) = map snd as"
  by (induction as) (auto simp: image_iff)

lemma renumbered_positions:
  assumes "distinct (map fst as)"
    and "mset (map queueId ws) = mset (map fst as)"
  shows "mset (map positionInQueue (map (renumbered now as) ws)) = mset (map snd as)"
proof -
  have in_dom: "\<And>e. e \<in> set ws \<Longrightarrow> map_of as (queueId e) \<noteq> None"
  proof -
    fix e assume "e \<in> set ws"
    then have "queueId e \<in> set (map queueId ws)" by simp
    also have "set (map queueId ws) = set (map fst as)"
      using assms(2) by (rule mset_eq_setD)
    finally show "map_of as (queueId e) \<noteq> None"
      by (simp add: map_of_eq_None_iff)
  qed
  have "map positionInQueue (map (renumbered now as) ws) = map (\<lambda>k. the (map_of as k)) (map queueId ws)"
    using in_dom by (fastforce simp: renumbered_def split: option.splits)
  then have "mset (map positionInQueue (map (renumbered now as) ws))
               = mset (map (\<lambda>k. the (map_of as k)) (map queueId ws))"
    by (rule arg_cong)
  also have "\<dots> = image_mset (\<lambda>k. the (map_of as k)) (mset (map queueId ws))"
    by (simp only: mset_map)
  also have "\<dots> = image_mset (\<lambda>k. the (map_of as k)) (mset (map fst as))"
    by (simp only: assms(2))
  also have "\<dots> = mset (map (\<lambda>k. the (map_of as k)) (map fst as))"
    by (simp only: mset_map)
  also have "\<dots> = mset (map snd as)"
    by (simp only: map_of_keys_values [OF assms(1)])
  finally show ?thesis .
qed

lemma densePositions_mset:
  "densePositions d s \<longleftrightarrow> mset (map positionInQueue (waitingIn d s)) = mset [1 .. int (length (waitingIn d s))]"
proof
  assume "densePositions d s"
  then have "mset (sort (map positionInQueue (waitingIn d s))) = mset [1 .. int (length (waitingIn d s))]"
    by (simp only: densePositions_def)
  then show "mset (map positionInQueue (waitingIn d s)) = mset [1 .. int (length (waitingIn d s))]"
    by simp
next
  assume "mset (map positionInQueue (waitingIn d s)) = mset [1 .. int (length (waitingIn d s))]"
  then have "sort (map positionInQueue (waitingIn d s)) = [1 .. int (length (waitingIn d s))]"
    by (intro properties_for_sort) simp_all
  then show "densePositions d s" by (simp add: densePositions_def)
qed

lemma renumber_dense:
  assumes "distinct (map fst as)"
    and "mset (map fst as) = mset (map queueId (waitingIn d s))"
    and "mset (map snd as) = mset [1 .. int (length as)]"
  shows "densePositions d (s\<lparr>departmentQueues := fold (setPosition now) as (departmentQueues s)\<rparr>)"
proof -
  have len: "length as = length (waitingIn d s)"
    using assms(2) by (metis length_map size_mset)
  have "mset (map positionInQueue (map (renumbered now as) (waitingIn d s))) = mset (map snd as)"
    by (rule renumbered_positions [OF assms(1) assms(2) [symmetric]])
  then show ?thesis
    unfolding fold_setPosition [OF assms(1)] densePositions_mset waitingIn_renumbered
    using assms(3) len by simp
qed

lemma numberFrom_keys: "map fst (numberFrom i qs) = qs"
  by (induction qs arbitrary: i) auto

lemma numberFrom_values: "map snd (numberFrom i qs) = [i + 1 .. i + int (length qs)]"
proof (induction qs arbitrary: i)
  case Nil
  then show ?case by simp
next
  case (Cons q qs)
  have "[i + 1 .. i + int (length (q # qs))] = (i + 1) # [i + 1 + 1 .. i + 1 + int (length qs)]"
    by (subst upto_rec1) (auto simp: add.assoc)
  with Cons [of "i + 1"] show ?case by simp
qed

lemma waiting_keys_distinct:
  "distinct (map queueId (departmentQueues s)) \<Longrightarrow> distinct (map queueId (waitingIn d s))"
  by (simp add: waitingIn_def distinct_map_filter)

lemma waitingByArrival_keys:
  "mset (map queueId (waitingByArrival tie d s)) = mset (map queueId (waitingIn d s))"
  by (simp add: waitingByArrival_def orderBy_def)

lemma prioritize_dense:
  assumes "distinct (map queueId (departmentQueues s))"
  shows "densePositions d (prioritizeCriticalPatients tie d now s)"
proof -
  let ?ids = "map queueId (waitingByArrival tie d s)"
  have "distinct (map queueId (waitingIn d s))"
    by (rule waiting_keys_distinct [OF assms])
  then have d: "distinct ?ids"
    using waitingByArrival_keys [of tie d s] by (metis mset_eq_imp_distinct_iff)
  have len: "length (numberFrom 0 ?ids) = length ?ids"
    by (metis numberFrom_keys length_map)
  show ?thesis
    unfolding prioritizeCriticalPatients_def
  proof (rule renumber_dense)
    show "distinct (map fst (numberFrom 0 ?ids))"
      by (simp only: numberFrom_keys d)
    show "mset (map fst (numberFrom 0 ?ids)) = mset (map queueId (waitingIn d s))"
      by (simp only: numberFrom_keys waitingByArrival_keys)
    show "mset (map snd (numberFrom 0 ?ids)) = mset [1 .. int (length (numberFrom 0 ?ids))]"
      by (simp only: numberFrom_values len add_0)
  qed
qed

lemma performTriage_shape:
  assumes "fst (performTriage tc td qid now s) = Inr e"
  shows "status e = WAITING \<and> calledAt e = None \<and> queueId e = qid
       \<and> positionInQueue e = queueCount (departmentId e) s + 1
       \<and> departmentQueues (snd (performTriage tc td qid now s)) = departmentQueues s @ [e]"
  using performTriage_cases [OF assms] by (auto simp: queueRow_def)

lemma performTriage_dense:
  assumes "densePositions d s"
  shows "densePositions d (snd (performTriage tc td qid now s))"
proof (cases "fst (performTriage tc td qid now s)")
  case (Inl err)
  then show ?thesis using assms by (simp add: performTriage_fails_unchanged)
next
  case (Inr e)
  from performTriage_shape [OF Inr] have
    pos: "positionInQueue e = queueCount (departmentId e) s + 1"
    and st: "status e = WAITING"
    and qs: "departmentQueues (snd (performTriage tc td qid now s)) = departmentQueues s @ [e]"
    by auto
  show ?thesis
  proof (cases "departmentId e = d")
    case False
    then have "waitingIn d (snd (performTriage tc td qid now s)) = waitingIn d s"
      by (simp add: waitingIn_def qs)
    with assms show ?thesis by (simp add: densePositions_def)
  next
    case True
    then have w: "waitingIn d (snd (performTriage tc td qid now s)) = waitingIn d s @ [e]"
      using st by (simp add: waitingIn_def qs)
    have p: "positionInQueue e = int (length (waitingIn d s)) + 1"
      using pos True by (simp add: queueCount_def)
    have up: "mset [1 .. int (length (waitingIn d s @ [e]))]
                = add_mset (positionInQueue e) (mset [1 .. int (length (waitingIn d s))])"
      unfolding p by (subst upto_rec2) (auto simp: algebra_simps)
    show ?thesis
      unfolding densePositions_mset w up using assms [unfolded densePositions_mset] by simp
  qed
qed

lemma adjustPositions_past:
  "newPosition < currentPos \<Longrightarrow>
     map fst (adjustPositions qid newPosition ws currentPos) = ws
   \<and> map snd (adjustPositions qid newPosition ws currentPos) = [currentPos .. currentPos + int (length ws) - 1]"
proof (induction ws arbitrary: currentPos)
  case Nil
  then show ?case by simp
next
  case (Cons w ws)
  have "[currentPos .. currentPos + int (length (w # ws)) - 1]
          = currentPos # [currentPos + 1 .. currentPos + 1 + int (length ws) - 1]"
    by (subst upto_rec1) (auto simp: add.assoc)
  with Cons.IH [of "currentPos + 1"] Cons.prems show ?case by simp
qed

lemma adjustPositions_within:
  "currentPos \<le> newPosition \<Longrightarrow> newPosition \<le> currentPos + int (length ws) \<Longrightarrow>
     mset (map fst (adjustPositions qid newPosition ws currentPos)) = mset (qid # ws)
   \<and> map snd (adjustPositions qid newPosition ws currentPos) = [currentPos .. currentPos + int (length ws)]"
proof (induction ws arbitrary: currentPos)
  case Nil
  then show ?case by simp
next
  case (Cons w ws)
  show ?case
  proof (cases "currentPos = newPosition")
    case True
    have "[currentPos .. currentPos + int (length (w # ws))]
            = currentPos # (currentPos + 1) # [currentPos + 2 .. currentPos + 2 + int (length ws) - 1]"
      by (subst upto_rec1, simp, subst upto_rec1) (auto simp: algebra_simps)
    with adjustPositions_past [of newPosition "currentPos + 2" qid ws] True show ?thesis by simp
  next
    case False
    have "[currentPos .. currentPos + int (length (w # ws))]
            = currentPos # [currentPos + 1 .. currentPos + 1 + int (length ws)]"
      by (subst upto_rec1) (auto simp: add.assoc)
    with Cons.IH [of "currentPos + 1"] Cons.prems False show ?thesis by simp
  qed
qed

lemma keys_split_off:
  "distinct (map queueId xs) \<Longrightarrow> e \<in> set xs \<Longrightarrow>
     mset (map queueId xs)
       = add_mset (queueId e) (mset (map queueId (filter (\<lambda>x. queueId x \<noteq> queueId e) xs)))"
proof (induction xs)
  case Nil
  then show ?case by simp
next
  case (Cons a xs)
  show ?case
  proof (cases "a = e")
    case True
    with Cons.prems have "\<forall>x \<in> set xs. queueId x \<noteq> queueId e"
      by (auto simp: image_iff)
    then have "filter (\<lambda>x. queueId x \<noteq> queueId e) xs = xs"
      by (simp add: filter_id_conv)
    with True show ?thesis by simp
  next
    case False
    with Cons.prems have "e \<in> set xs" and "queueId a \<noteq> queueId e"
      by (auto simp: image_iff)
    with Cons show ?thesis by simp
  qed
qed

lemma first_row_with_key:
  assumes "distinct (map queueId qs)" and "e \<in> set qs"
  shows "\<exists>rest. filter (\<lambda>x. queueId x = queueId e) qs = e # rest"
proof -
  have "e \<in> set (filter (\<lambda>x. queueId x = queueId e) qs)"
    using assms(2) by simp
  then obtain a rest where ar: "filter (\<lambda>x. queueId x = queueId e) qs = a # rest"
    by (cases "filter (\<lambda>x. queueId x = queueId e) qs") auto
  then have "a \<in> set (filter (\<lambda>x. queueId x = queueId e) qs)" by simp
  then have "a \<in> set qs" and "queueId a = queueId e" by auto
  then have "a = e" using same_key_same_row [OF assms(1) _ assms(2)] by blast
  with ar show ?thesis by blast
qed

lemma updatePatientPosition_dense:
  assumes dist: "distinct (map queueId (departmentQueues s))"
    and e: "e \<in> set (waitingIn d s)" and q: "queueId e = qid"
    and lo: "1 \<le> newPosition" and hi: "newPosition \<le> int (length (waitingIn d s))"
  shows "densePositions d (snd (updatePatientPosition qid newPosition now s))"
proof -
  from e have eq: "e \<in> set (departmentQueues s)" and ed: "departmentId e = d"
    by (auto simp: waitingIn_def)
  from first_row_with_key [OF dist eq] q obtain rest where
    f: "filter (\<lambda>x. queueId x = qid) (departmentQueues s) = e # rest" by auto
  define others where
    "others = filter (\<lambda>x. departmentId x = d \<and> status x = WAITING \<and> queueId x \<noteq> qid) (departmentQueues s)"
  define ids where "ids = map queueId (sort_key positionInQueue others)"
  define as where "as = adjustPositions qid newPosition ids 1"
  have res: "snd (updatePatientPosition qid newPosition now s)
               = s\<lparr>departmentQueues := fold (setPosition now) as (departmentQueues s)\<rparr>"
    by (simp add: updatePatientPosition_def f ed Let_def as_def ids_def others_def)
  have oth: "others = filter (\<lambda>x. queueId x \<noteq> queueId e) (waitingIn d s)"
    by (simp add: waitingIn_def q others_def)
  have wd: "distinct (map queueId (waitingIn d s))"
    by (rule waiting_keys_distinct [OF dist])
  have "mset ids = mset (map queueId others)"
    by (simp add: ids_def)
  with keys_split_off [OF wd e] have keys: "mset (map queueId (waitingIn d s)) = mset (qid # ids)"
    by (simp add: oth q)
  from mset_eq_length [OF keys] have "length (waitingIn d s) = Suc (length ids)"
    by simp
  with hi have hi': "newPosition \<le> 1 + int (length ids)" by simp
  from adjustPositions_within [OF lo hi', of qid] have
    k: "mset (map fst as) = mset (qid # ids)"
    and v: "map snd as = [1 .. 1 + int (length ids)]"
    by (simp_all add: as_def)
  have "length (map snd as) = length [1 .. 1 + int (length ids)]"
    by (simp only: v)
  then have len: "int (length as) = 1 + int (length ids)" by simp
  have k': "mset (map fst as) = mset (map queueId (waitingIn d s))"
    using k keys by simp
  have d1: "distinct (map fst as)"
    using mset_eq_imp_distinct_iff [OF k'] wd by simp
  show ?thesis
    unfolding res
  proof (rule renumber_dense)
    show "distinct (map fst as)" by (rule d1)
    show "mset (map fst as) = mset (map queueId (waitingIn d s))" by (rule k')
    show "mset (map snd as) = mset [1 .. int (length as)]"
      by (simp only: v len)
  qed
qed

lemma callNextPatient_positions:
  "map positionInQueue (departmentQueues (snd (callNextPatient d doctorId now s)))
     = map positionInQueue (departmentQueues s)"
  by (auto simp: callNextPatient_def Let_def called_def split: list.splits)

lemma skipPatient_positions:
  "map positionInQueue (departmentQueues (snd (skipPatient qid now s)))
     = map positionInQueue (departmentQueues s)"
  by (auto simp: skipPatient_def split: list.splits)

subsection \<open>Dense positions\<close>

text \<open>
  C1, as the code has it. The positions of a department's WAITING rows are dense after
  the operations that number rows, and only after those:
  \<^item> a triage intake keeps the positions of every department dense (the new row goes to
    the count of WAITING rows plus one);
  \<^item> \<open>prioritizeCriticalPatients\<close> makes the positions of its department dense, whatever
    they were, primary keys being distinct;
  \<^item> \<open>updatePatientPosition\<close> makes the positions of the row's department dense when the
    row is WAITING and the new position lies between 1 and the number of WAITING rows;
  \<^item> \<open>callNextPatient\<close> and \<open>skipPatient\<close> change no position at all: they take a row out
    of the WAITING rows and renumber nothing.
\<close>

theorem positions_dense_where_renumbered:
  "(densePositions d s \<longrightarrow> densePositions d (snd (performTriage tc td newId now s)))
   \<and> (distinct (map queueId (departmentQueues s)) \<longrightarrow>
        densePositions d (prioritizeCriticalPatients tie d now s))
   \<and> (distinct (map queueId (departmentQueues s))
        \<and> (\<exists>e \<in> set (waitingIn d s). queueId e = qid)
        \<and> 1 \<le> newPosition \<and> newPosition \<le> int (length (waitingIn d s)) \<longrightarrow>
        densePositions d (snd (updatePatientPosition qid newPosition now s)))
   \<and> map positionInQueue (departmentQueues (snd (callNextPatient d doctorId now s)))
        = map positionInQueue (departmentQueues s)
   \<and> map positionInQueue (departmentQueues (snd (skipPatient qid now s)))
        = map positionInQueue (departmentQueues s)"
proof (intro conjI impI)
  assume "densePositions d s"
  then show "densePositions d (snd (performTriage tc td newId now s))"
    by (rule performTriage_dense)
next
  assume "distinct (map queueId (departmentQueues s))"
  then show "densePositions d (prioritizeCriticalPatients tie d now s)"
    by (rule prioritize_dense)
next
  assume a: "distinct (map queueId (departmentQueues s))
        \<and> (\<exists>e \<in> set (waitingIn d s). queueId e = qid)
        \<and> 1 \<le> newPosition \<and> newPosition \<le> int (length (waitingIn d s))"
  then obtain e where "e \<in> set (waitingIn d s)" "queueId e = qid" by blast
  with a show "densePositions d (snd (updatePatientPosition qid newPosition now s))"
    by (intro updatePatientPosition_dense [of s e]) simp_all
next
  show "map positionInQueue (departmentQueues (snd (callNextPatient d doctorId now s)))
        = map positionInQueue (departmentQueues s)"
    by (rule callNextPatient_positions)
next
  show "map positionInQueue (departmentQueues (snd (skipPatient qid now s)))
        = map positionInQueue (departmentQueues s)"
    by (rule skipPatient_positions)
qed

lemmas position_run_defs =
  updatePatientPosition_def skipPatient_def prioritizeCriticalPatients_def waitingByArrival_def
  orderBy_def arrivalKey_def setPosition_def densePositions_def waitingIn_def less_eq_prod_def Let_def
  called_def twoWaiting_def calledAndWaiting_def mkEntry_def mkDb_def generalDept_def upto.simps

theorem positions_dense_where_renumbered_witness:
  "densePositions 1 oneWaiting
   \<and> densePositions 1 (snd (performTriage (constCalculator 7) plainIntake 2 5 oneWaiting))
   \<and> \<not> densePositions 1 calledAndWaiting
   \<and> densePositions 1 (prioritizeCriticalPatients queueId 1 6 calledAndWaiting)
   \<and> map positionInQueue (waitingIn 1 (snd (updatePatientPosition 2 1 6 twoWaiting))) = [2, 1]
   \<and> densePositions 1 (snd (updatePatientPosition 2 1 6 twoWaiting))"
proof -
  have 1: "densePositions 1 oneWaiting"
    by (simp add: densePositions_def waitingIn_def oneWaiting_def mkDb_def mkEntry_def upto.simps)
  have 2: "distinct (map queueId (departmentQueues calledAndWaiting))"
    by (simp add: calledAndWaiting_def mkDb_def mkEntry_def called_def)
  have 3: "distinct (map queueId (departmentQueues twoWaiting))
        \<and> (\<exists>e \<in> set (waitingIn 1 twoWaiting). queueId e = 2)
        \<and> (1::int) \<le> 1 \<and> 1 \<le> int (length (waitingIn 1 twoWaiting))"
    by (simp add: twoWaiting_def mkDb_def mkEntry_def waitingIn_def)
  have 4: "\<not> densePositions 1 calledAndWaiting"
    by (simp add: position_run_defs)
  have 5: "map positionInQueue (waitingIn 1 (snd (updatePatientPosition 2 1 6 twoWaiting))) = [2, 1]"
    by (simp add: position_run_defs)
  show ?thesis
    using 1 2 3 4 5
      positions_dense_where_renumbered
        [where d = 1 and s = oneWaiting and tc = "constCalculator 7" and td = plainIntake
           and newId = 2 and now = 5]
      positions_dense_where_renumbered
        [where d = 1 and s = calledAndWaiting and now = 6 and tie = queueId]
      positions_dense_where_renumbered
        [where d = 1 and s = twoWaiting and now = 6 and qid = 2 and newPosition = 1]
    by blast
qed

text \<open>
  C1 as the specification states it fails. From the dense queue with WAITING rows at
  positions 1 and 2, skipping the row at position 1 succeeds and leaves the one WAITING row
  at position 2; and moving the row at position 2 to position 5, which the request
  validation accepts, succeeds and leaves the WAITING rows at positions 1 and 5.
\<close>

theorem skip_and_reposition_gap_counterexample:
  "densePositions 1 twoWaiting
   \<and> fst (skipPatient 1 5 twoWaiting) = Inr ()
   \<and> map positionInQueue (waitingIn 1 (snd (skipPatient 1 5 twoWaiting))) = [2]
   \<and> \<not> densePositions 1 (snd (skipPatient 1 5 twoWaiting))
   \<and> fst (updatePatientPosition 2 5 6 twoWaiting) = Inr ()
   \<and> map positionInQueue (waitingIn 1 (snd (updatePatientPosition 2 5 6 twoWaiting))) = [1, 5]
   \<and> \<not> densePositions 1 (snd (updatePatientPosition 2 5 6 twoWaiting))"
  by (simp add: position_run_defs)

subsection \<open>Ordered queries\<close>





text \<open>
  Conversely, every list of the rows that is sorted by the key is the result for some
  \<open>tie\<close>: the rank of a row in that list.
\<close>

lemma orderBy_any_order:
  assumes d: "distinct ws" and m: "mset ws = mset rows" and srt: "sorted (map key ws)"
  shows "\<exists>tie. orderBy key tie rows = ws"
proof -
  define tie where "tie = (\<lambda>r. length (takeWhile (\<lambda>x. x \<noteq> r) ws))"
  have idx: "tie (ws ! i) = i" if "i < length ws" for i
  proof -
    have "takeWhile (\<lambda>x. x \<noteq> ws ! i) ws = take i ws"
    proof (rule takeWhile_eq_take_P_nth)
      fix k assume "k < i" "k < length ws"
      with d that show "ws ! k \<noteq> ws ! i" by (simp add: nth_eq_iff_index_eq)
    next
      show "\<not> ws ! i \<noteq> ws ! i" by simp
    qed
    with that show ?thesis by (simp add: tie_def)
  qed
  have inj: "inj_on (\<lambda>r. (key r, tie r)) (set rows)"
  proof (rule inj_onI)
    fix a b assume "a \<in> set rows" "b \<in> set rows" and e: "(key a, tie a) = (key b, tie b)"
    with m have "a \<in> set ws" "b \<in> set ws" by (auto dest: mset_eq_setD)
    then obtain i j where "i < length ws" "ws ! i = a" "j < length ws" "ws ! j = b"
      by (auto simp: in_set_conv_nth)
    with idx e show "a = b" by auto
  qed
  have "sorted_wrt (\<lambda>a b. (key a, tie a) \<le> (key b, tie b)) ws"
    unfolding sorted_wrt_iff_nth_less
  proof (intro allI impI)
    fix i j assume ij: "i < j" "j < length ws"
    with srt have "key (ws ! i) \<le> key (ws ! j)"
      by (simp add: sorted_map sorted_wrt_iff_nth_less)
    with ij idx [of i] idx [of j]
    show "(key (ws ! i), tie (ws ! i)) \<le> (key (ws ! j), tie (ws ! j))"
      by (simp add: less_eq_prod_def)
  qed
  then have "sorted (map (\<lambda>r. (key r, tie r)) ws)"
    by (simp only: sorted_map)
  from sort_key_inj_key_eq [OF m [symmetric] inj this] have r: "orderBy key tie rows = ws"
    by (simp add: orderBy_def)
  show ?thesis by (rule exI [of _ tie]) (rule r)
qed

subsection \<open>Re-prioritising a department\<close>

















subsection \<open>Reading a queue\<close>















subsection \<open>The department load counter\<close>

lemma length_without_key:
  "distinct (map queueId xs) \<Longrightarrow> m \<in> set xs \<Longrightarrow>
     length xs = Suc (length (filter (\<lambda>x. queueId x \<noteq> queueId m) xs))"
proof (induction xs)
  case Nil
  then show ?case by simp
next
  case (Cons a xs)
  show ?case
  proof (cases "a = m")
    case True
    with Cons.prems have "\<forall>x \<in> set xs. queueId x \<noteq> queueId m"
      by (auto simp: image_iff)
    then have "filter (\<lambda>x. queueId x \<noteq> queueId m) xs = xs"
      by (simp add: filter_id_conv)
    with True show ?thesis by simp
  next
    case False
    with Cons.prems have "m \<in> set xs" and "queueId a \<noteq> queueId m"
      by (auto simp: image_iff)
    with Cons show ?thesis by simp
  qed
qed

lemma performTriage_effect:
  assumes "fst (performTriage tc td qid now s) = Inr e"
  shows "qid \<notin> set (map queueId (departmentQueues s))
       \<and> departmentQueues (snd (performTriage tc td qid now s)) = departmentQueues s @ [e]
       \<and> departments (snd (performTriage tc td qid now s))
           = map (\<lambda>x. if dept_id x = departmentId e
                      then x\<lparr>currentPatientLoad := currentPatientLoad x + 1\<rparr>
                      else x) (departments s)"
  using performTriage_cases [OF assms] by (auto simp: queueRow_def)

lemma performTriage_keeps_counts:
  assumes "wellKeyed s" and "loadCounts s"
  shows "wellKeyed (snd (performTriage tc td qid now s)) \<and> loadCounts (snd (performTriage tc td qid now s))"
proof (cases "fst (performTriage tc td qid now s)")
  case (Inl err)
  then show ?thesis using assms by (simp add: performTriage_fails_unchanged)
next
  case (Inr e)
  from performTriage_shape [OF Inr] have e: "queueId e = qid" "status e = WAITING" "calledAt e = None"
    by auto
  from performTriage_effect [OF Inr] have fresh: "qid \<notin> set (map queueId (departmentQueues s))"
    and q': "departmentQueues (snd (performTriage tc td qid now s)) = departmentQueues s @ [e]"
    and d': "departments (snd (performTriage tc td qid now s))
           = map (\<lambda>x. if dept_id x = departmentId e
                      then x\<lparr>currentPatientLoad := currentPatientLoad x + 1\<rparr>
                      else x) (departments s)"
    by auto
  have ids: "(dept_id \<circ> (\<lambda>x. if dept_id x = departmentId e
                                then x\<lparr>currentPatientLoad := currentPatientLoad x + 1\<rparr>
                                else x)) = dept_id"
    by (rule ext) simp
  have wk: "wellKeyed (snd (performTriage tc td qid now s))"
    using assms(1) fresh e unfolding wellKeyed_def q' d' by (auto simp: ids)
  have lc: "loadCounts (snd (performTriage tc td qid now s))"
    using assms(2) e unfolding loadCounts_def uncalledIn_def q' d' by auto
  from wk lc show ?thesis ..
qed

lemma completePatient_keeps_counts:
  assumes "wellKeyed s" and "loadCounts s"
  shows "wellKeyed (snd (completePatient qid now s)) \<and> loadCounts (snd (completePatient qid now s))"
proof (cases "filter (\<lambda>e. queueId e = qid) (departmentQueues s)")
  case Nil
  then show ?thesis using assms by (simp add: completePatient_def)
next
  case (Cons a rest)
  define f :: "queue_entry \<Rightarrow> queue_entry" where "f = (\<lambda>e. if queueId e = qid
                              then e\<lparr>status := COMPLETED, completedAt := Some now, updatedAt := now\<rparr>
                              else e)"
  have s': "snd (completePatient qid now s) = s\<lparr>departmentQueues := map f (departmentQueues s)\<rparr>"
    by (simp add: completePatient_def Cons f_def)
  have fq: "\<And>e. queueId (f e) = queueId e" "\<And>e. calledAt (f e) = calledAt e"
    "\<And>e. departmentId (f e) = departmentId e" "\<And>e. status (f e) = WAITING \<Longrightarrow> status e = WAITING"
    by (simp_all add: f_def split: if_splits)
  have u: "\<And>d. filter (\<lambda>e. departmentId e = d \<and> calledAt e = None) (map f (departmentQueues s))
             = map f (filter (\<lambda>e. departmentId e = d \<and> calledAt e = None) (departmentQueues s))"
    by (simp add: filter_map comp_def fq)
  have wk: "wellKeyed (snd (completePatient qid now s))"
    using assms(1) unfolding s' wellKeyed_def by (auto simp: comp_def fq dest: fq(4))
  have lc: "loadCounts (snd (completePatient qid now s))"
    using assms(2) unfolding s' loadCounts_def uncalledIn_def by (simp add: u)
  from wk lc show ?thesis ..
qed

lemma callNextPatient_keeps_counts:
  assumes wk: "wellKeyed s" and lc: "loadCounts s"
  shows "wellKeyed (snd (callNextPatient d doctorId now s)) \<and> loadCounts (snd (callNextPatient d doctorId now s))"
proof (cases "waitingIn d s = []")
  case True
  then show ?thesis using assms by (simp add: callNextPatient_empty)
next
  case False
  from wk have dist: "distinct (map queueId (departmentQueues s))"
    by (simp add: wellKeyed_def)
  from callNextPatient_picks [OF dist False, of doctorId now] obtain m where
    mw: "m \<in> set (waitingIn d s)"
    and res: "callNextPatient d doctorId now s =
             (Inr (Some (called doctorId now m)),
              s\<lparr>departmentQueues := map (\<lambda>e. if queueId e = queueId m then called doctorId now m else e)
                                        (departmentQueues s),
                departments := map (\<lambda>x. if dept_id x = d
                                         then x\<lparr>currentPatientLoad := currentPatientLoad x - 1\<rparr>
                                         else x) (departments s)\<rparr>)"
    by blast
  define g :: "queue_entry \<Rightarrow> queue_entry" where
    "g = (\<lambda>e. if queueId e = queueId m then called doctorId now m else e)"
  define h :: "department \<Rightarrow> department" where
    "h = (\<lambda>x. if dept_id x = d then x\<lparr>currentPatientLoad := currentPatientLoad x - 1\<rparr> else x)"
  have s': "snd (callNextPatient d doctorId now s)
              = s\<lparr>departmentQueues := map g (departmentQueues s), departments := map h (departments s)\<rparr>"
    unfolding res g_def h_def by simp
  from mw have mq: "m \<in> set (departmentQueues s)" and md: "departmentId m = d"
    and ms: "status m = WAITING"
    by (auto simp: waitingIn_def)
  with wk have mc: "calledAt m = None" by (auto simp: wellKeyed_def)
  have gq: "\<And>e. queueId (g e) = queueId e" "\<And>e. status (g e) = WAITING \<Longrightarrow> g e = e"
    by (auto simp: g_def called_def)
  have hq: "\<And>x. dept_id (h x) = dept_id x"
    by (simp add: h_def)
  have w3: "\<forall>e' \<in> set (map g (departmentQueues s)). status e' = WAITING \<longrightarrow> calledAt e' = None"
  proof (intro ballI impI)
    fix e' assume "e' \<in> set (map g (departmentQueues s))" and w: "status e' = WAITING"
    then obtain e where e: "e \<in> set (departmentQueues s)" and e': "e' = g e" by auto
    from gq(2) w e' have "g e = e" by simp
    with w e e' wk show "calledAt e' = None" by (simp add: wellKeyed_def)
  qed
  have wk': "wellKeyed (snd (callNextPatient d doctorId now s))"
    using wk w3 unfolding s' wellKeyed_def
    by (simp add: comp_def gq hq)
  have unc: "\<And>d'. uncalledIn d' (snd (callNextPatient d doctorId now s))
                = filter (\<lambda>e. queueId e \<noteq> queueId m) (uncalledIn d' s)"
  proof -
    fix d'
    have "\<not> (departmentId (called doctorId now m) = d' \<and> calledAt (called doctorId now m) = None)"
      by (simp add: called_def)
    from filter_map_replace [of "\<lambda>e. departmentId e = d' \<and> calledAt e = None", OF this]
    show "uncalledIn d' (snd (callNextPatient d doctorId now s))
                = filter (\<lambda>e. queueId e \<noteq> queueId m) (uncalledIn d' s)"
      unfolding s' g_def by (simp add: uncalledIn_def conj_commute)
  qed
  have here: "int (length (uncalledIn d (snd (callNextPatient d doctorId now s))))
                = int (length (uncalledIn d s)) - 1"
  proof -
    have "m \<in> set (uncalledIn d s)"
      using mq md mc by (simp add: uncalledIn_def)
    moreover have "distinct (map queueId (uncalledIn d s))"
      using dist by (simp add: uncalledIn_def distinct_map_filter)
    ultimately have "length (uncalledIn d s)
                       = Suc (length (filter (\<lambda>e. queueId e \<noteq> queueId m) (uncalledIn d s)))"
      by (intro length_without_key)
    then show ?thesis by (simp add: unc)
  qed
  have other: "\<And>d'. d' \<noteq> d \<Longrightarrow> uncalledIn d' (snd (callNextPatient d doctorId now s)) = uncalledIn d' s"
  proof -
    fix d' assume ne: "d' \<noteq> d"
    have "\<forall>x \<in> set (uncalledIn d' s). queueId x \<noteq> queueId m"
    proof
      fix x assume "x \<in> set (uncalledIn d' s)"
      then have xq: "x \<in> set (departmentQueues s)" and xd: "departmentId x = d'"
        by (auto simp: uncalledIn_def)
      show "queueId x \<noteq> queueId m"
      proof
        assume "queueId x = queueId m"
        from same_key_same_row [OF dist xq mq this] xd md ne show False by simp
      qed
    qed
    then show "uncalledIn d' (snd (callNextPatient d doctorId now s)) = uncalledIn d' s"
      by (simp add: unc filter_id_conv)
  qed
  have lc': "loadCounts (snd (callNextPatient d doctorId now s))"
    unfolding loadCounts_def
  proof
    fix x' assume "x' \<in> set (departments (snd (callNextPatient d doctorId now s)))"
    then obtain x where x: "x \<in> set (departments s)" and x': "x' = h x"
      unfolding s' by auto
    from lc x have l: "currentPatientLoad x = int (length (uncalledIn (dept_id x) s))"
      by (simp add: loadCounts_def)
    show "currentPatientLoad x' = int (length (uncalledIn (dept_id x') (snd (callNextPatient d doctorId now s))))"
    proof (cases "dept_id x = d")
      case True
      then show ?thesis using l here by (simp add: x' h_def)
    next
      case False
      then show ?thesis using l other [of "dept_id x"] by (simp add: x' h_def)
    qed
  qed
  from wk' lc' show ?thesis ..
qed

lemma apply_op_keeps_counts:
  "wellKeyed s \<Longrightarrow> loadCounts s \<Longrightarrow> wellKeyed (apply_op tc op s) \<and> loadCounts (apply_op tc op s)"
  by (cases op)
     (simp_all add: performTriage_keeps_counts callNextPatient_keeps_counts completePatient_keeps_counts)

lemma run_keeps_counts:
  "wellKeyed s \<Longrightarrow> loadCounts s \<Longrightarrow> wellKeyed (run tc ops s) \<and> loadCounts (run tc ops s)"
  unfolding run_def
proof (induction ops arbitrary: s)
  case Nil
  then show ?case by simp
next
  case (Cons op ops)
  from apply_op_keeps_counts [OF Cons.prems, of tc op]
  have "wellKeyed (apply_op tc op s)" and "loadCounts (apply_op tc op s)" by auto
  from Cons.IH [OF this] show ?case by simp
qed

text \<open>
  C6, as the code has it. An intake adds one to the counter, a call of the next patient
  takes one off, and completing changes nothing; each of these writes is in the transaction
  of its row write, here one step. So from every state with distinct keys in which the
  counters are the numbers of rows never called (a department with no rows and load 0, for
  one), every sequence of intakes, calls and completions leads to such a state: the load is
  the number of the department's rows never called. Those are its WAITING rows and the rows
  completed without having been called; IN_PROGRESS rows are not counted.
\<close>

theorem load_counts_uncalled:
  assumes "wellKeyed s" and "loadCounts s"
  shows "wellKeyed (run tc ops s)
     \<and> (\<forall>x \<in> set (departments (run tc ops s)).
           currentPatientLoad x = int (length (uncalledIn (dept_id x) (run tc ops s))))"
  using run_keeps_counts [OF assms, of tc ops] by (simp add: loadCounts_def)

lemmas load_run_defs =
  run_def performTriage_def callNextPatient_def completePatient_def called_def
  constCalculator_def plainIntake_def plainVitals_def determineDepartment_def queueCount_def
  waitingIn_def orderKey_def less_eq_prod_def orZero_def Let_def emptyQueue_def mkDb_def generalDept_def
  triageSessionRow_def triageSessionAccepted_def queueRow_def queueRowAccepted_def
  intakeScore_def intakeUrgency_def intakeWait_def bodyMassIndex_def
  nullable_def numericColumn_def integerColumn_def fitsInteger_def loadUpdateAccepted_def
  uncalledIn_def activeIn_def

theorem load_counts_uncalled_witness:
  "wellKeyed emptyQueue \<and> loadCounts emptyQueue
   \<and> map status (departmentQueues
        (run (constCalculator 0) [Intake plainIntake 1 5, Intake plainIntake 2 6, CallNext 1 9 7, Complete 1 8]
           emptyQueue)) = [COMPLETED, WAITING]
   \<and> map currentPatientLoad (departments
        (run (constCalculator 0) [Intake plainIntake 1 5, Intake plainIntake 2 6, CallNext 1 9 7, Complete 1 8]
           emptyQueue)) = [1]
   \<and> map queueId (uncalledIn 1
        (run (constCalculator 0) [Intake plainIntake 1 5, Intake plainIntake 2 6, CallNext 1 9 7, Complete 1 8]
           emptyQueue)) = [2]"
proof -
  have 1: "wellKeyed emptyQueue"
    by (simp add: wellKeyed_def emptyQueue_def mkDb_def generalDept_def)
  have 2: "loadCounts emptyQueue"
    by (simp add: loadCounts_def emptyQueue_def mkDb_def generalDept_def uncalledIn_def)
  show ?thesis
    using 1 2 load_counts_uncalled [OF 1 2, of "constCalculator 0"
                    "[Intake plainIntake 1 5, Intake plainIntake 2 6, CallNext 1 9 7, Complete 1 8]"]
    by (simp add: load_run_defs)
qed

text \<open>
  C6 as the specification states it fails: after one intake and one call of the next
  patient, the department has one active row (IN_PROGRESS) and its load counter is 0.
\<close>

theorem load_after_call_counterexample:
  "map currentPatientLoad (departments emptyQueue) = [0]
   \<and> map status (departmentQueues
        (run (constCalculator 0) [Intake plainIntake 1 5, CallNext 1 9 6] emptyQueue)) = [IN_PROGRESS]
   \<and> length (activeIn 1 (run (constCalculator 0) [Intake plainIntake 1 5, CallNext 1 9 6] emptyQueue)) = 1
   \<and> map currentPatientLoad (departments
        (run (constCalculator 0) [Intake plainIntake 1 5, CallNext 1 9 6] emptyQueue)) = [0]"
  by (simp add: load_run_defs)

end
